theory Spec2Isabelle
  imports Complex_Main
begin

section \<open>Numbers, errors and Python containers\<close>

text \<open>
  Python floats are modelled as exact reals together with the three non-finite values
  that \<open>np.isfinite\<close> separates from them. Rounding is not modelled: arithmetic on
  finite values is the arithmetic of \<open>real\<close>. Strategy parameters and allocation
  weights are finite reals; channel ratios, prices and equity values, which the code
  tests with \<open>np.isfinite\<close> before using them, are \<open>pyfloat\<close>.
\<close>

datatype pyfloat = Finite real | PosInf | NegInf | NaN

datatype error = IndexError | ValueError

text \<open>The position that the index \<open>i\<close> denotes in a Python list of length \<open>n\<close>:
  a negative index counts from the end, an index outside the list denotes none.\<close>

definition py_position :: "nat \<Rightarrow> int \<Rightarrow> nat option" where
  "py_position n i =
     (if 0 \<le> i \<and> i < int n then Some (nat i)
      else if i < 0 \<and> - int n \<le> i then Some (nat (int n + i))
      else None)"

text \<open>\<open>xs[i]\<close> and \<open>xs[i] = v\<close>: an index that denotes no position raises
  IndexError.\<close>

definition py_index :: "'a list \<Rightarrow> int \<Rightarrow> error + 'a" where
  "py_index xs i =
     (case py_position (length xs) i of None \<Rightarrow> Inl IndexError | Some j \<Rightarrow> Inr (xs ! j))"

definition py_store :: "'a list \<Rightarrow> int \<Rightarrow> 'a \<Rightarrow> error + 'a list" where
  "py_store xs i v =
     (case py_position (length xs) i of
        None \<Rightarrow> Inl IndexError
      | Some j \<Rightarrow> Inr (xs[j := v]))"

text \<open>\<open>xs[i:]\<close>: a slice never raises; a negative start counts from the end and is
  cut off at the front of the list.\<close>

definition py_slice_from :: "'a list \<Rightarrow> int \<Rightarrow> 'a list" where
  "py_slice_from xs i =
     (if 0 \<le> i then drop (nat i) xs else drop (nat (int (length xs) + i)) xs)"

text \<open>\<open>range(a, b)\<close> on integers.\<close>

definition py_range :: "int \<Rightarrow> int \<Rightarrow> int list" where
  "py_range a b = [a..b - 1]"

section \<open>core/utils.py\<close>

definition clamp :: "real \<Rightarrow> real \<Rightarrow> real \<Rightarrow> real" where
  "clamp v min_val max_val = max min_val (min max_val v)"

section \<open>core/models.py\<close>

record StrategyParams =
  ladder :: string
  sell_start :: real
  buy_threshold :: real
  reentry_mode :: string
  start_weight :: real
  start_date :: string

text \<open>The defaults of the dataclass.\<close>

definition default_params :: StrategyParams where
  "default_params =
     \<lparr>ladder = ''g1'', sell_start = 46, buy_threshold = 14, reentry_mode = ''instant'',
      start_weight = 1, start_date = ''2018-01-01''\<rparr>"

text \<open>The defaults with gradual re-entry selected.\<close>

definition gradual_params :: StrategyParams where
  "gradual_params = default_params\<lparr>reentry_mode := ''gradual''\<rparr>"

record StrategyStep =
  weight :: real
  action :: string
  tag :: string

section \<open>core/strategy.py\<close>

definition sell_weight :: "pyfloat \<Rightarrow> real \<Rightarrow> string \<Rightarrow> real" where
  "sell_weight ratio sell_start' ladder' =
     (case ratio of
        Finite r \<Rightarrow>
          if r \<le> sell_start' then 1
          else if r \<ge> 100 then 0
          else
            let width = 100 - sell_start' in
            if width \<le> 0 then 0
            else
              let x = clamp ((r - sell_start') / width) 0 1 in
              if ladder' = ''g0'' then clamp (1 - x * x) 0 1
              else if ladder' = ''g2'' then (let base = clamp (1 - x) 0 1 in base * base)
              else clamp (1 - x) 0 1
      | _ \<Rightarrow> 1)"

definition target_weight :: "real \<Rightarrow> pyfloat \<Rightarrow> StrategyParams \<Rightarrow> real" where
  "target_weight prev_weight ratio params =
     (case ratio of
        Finite r \<Rightarrow>
          if r \<ge> sell_start params then
            (let ladder_weight = sell_weight ratio (sell_start params) (ladder params)
             in min prev_weight ladder_weight)
          else if reentry_mode params = ''instant'' then 1
          else if reentry_mode params = ''wait'' then
            (if r \<le> buy_threshold params then 1 else prev_weight)
          else
            (let denom = max (sell_start params) (1 / 10 ^ 9);
                 f = clamp ((sell_start params - r) / denom) 0 1;
                 eased = f * f
             in clamp (prev_weight + (1 - prev_weight) * eased) 0 1)
      | _ \<Rightarrow> prev_weight)"

definition step_weight :: "real \<Rightarrow> pyfloat \<Rightarrow> StrategyParams \<Rightarrow> StrategyStep" where
  "step_weight prev_weight ratio params =
     (let target = target_weight prev_weight ratio params;
          delta = target - prev_weight
      in if \<bar>delta\<bar> \<le> 1 / 10 ^ 12 then
           \<lparr>weight = prev_weight, action = ''HOLD'', tag = ''hold''\<rparr>
         else if delta > 0 then
           \<lparr>weight = target, action = ''BUY / REBALANCE UP'', tag = ''buy''\<rparr>
         else
           \<lparr>weight = target, action = ''SELL / REBALANCE DOWN'', tag = ''sell''\<rparr>)"

text \<open>The ladder value as the specification words it: a curve \<open>L(x)\<close> of the
  normalised position \<open>x\<close> in the sell range, one per ladder family.\<close>

definition spec_ladder_value :: "string \<Rightarrow> real \<Rightarrow> real" where
  "spec_ladder_value ladder' x =
     (if ladder' = ''g0'' then 1 - x\<^sup>2
      else if ladder' = ''g1'' then 1 - x
      else (1 - x)\<^sup>2)"


text \<open>The dictionary \<open>last_trade\<close> of \<open>compute_weight_series\<close>, one field per key.\<close>

record Trade =
  trade_date :: string
  trade_action :: string
  trade_ratio :: pyfloat
  trade_weight :: real
  trade_tag :: string

text \<open>The body of the loop \<open>for i in range(start_idx, len(ratios))\<close>, run over the
  list of indices; \<open>ratios[i]\<close>, \<open>dates[i]\<close> and \<open>weights[i] = weight\<close> follow
  Python's index rule and may raise.\<close>

fun weight_loop ::
  "pyfloat list \<Rightarrow> string list \<Rightarrow> StrategyParams \<Rightarrow> int list
     \<Rightarrow> real option list \<Rightarrow> real \<Rightarrow> Trade option
     \<Rightarrow> error + (real option list \<times> real \<times> Trade option)" where
  "weight_loop ratios dates params [] weights weight' last_trade =
     Inr (weights, weight', last_trade)"
| "weight_loop ratios dates params (i # idx) weights weight' last_trade =
     (case py_index ratios i of
        Inl e \<Rightarrow> Inl e
      | Inr ratio \<Rightarrow>
         (let step = step_weight weight' ratio params;
              changed = \<bar>weight step - weight'\<bar> > 1 / 10 ^ 12
          in case (if changed then
                     (case py_index dates i of
                        Inl e \<Rightarrow> Inl e
                      | Inr d \<Rightarrow> Inr (Some \<lparr>trade_date = d, trade_action = action step,
                                   trade_ratio = ratio, trade_weight = weight step,
                                   trade_tag = tag step\<rparr>))
                   else Inr last_trade) of
               Inl e \<Rightarrow> Inl e
             | Inr last_trade' \<Rightarrow>
                 (case py_store weights i (Some (weight step)) of
                    Inl e \<Rightarrow> Inl e
                  | Inr weights' \<Rightarrow>
                      weight_loop ratios dates params idx weights' (weight step) last_trade')))"

definition compute_weight_series ::
  "pyfloat list \<Rightarrow> string list \<Rightarrow> StrategyParams \<Rightarrow> int
     \<Rightarrow> error + (real option list \<times> Trade option)" where
  "compute_weight_series ratios dates params start_idx =
     (case weight_loop ratios dates params (py_range start_idx (int (length ratios)))
             (replicate (length ratios) None) (start_weight params) None of
        Inl e \<Rightarrow> Inl e
      | Inr (weights, weight', last_trade) \<Rightarrow> Inr (weights, last_trade))"

section \<open>core/utils.py: maximum drawdown\<close>

text \<open>\<open>if v is None or not np.isfinite(v): continue\<close> keeps the finite values only.\<close>

fun finite_value :: "pyfloat option \<Rightarrow> real option" where
  "finite_value None = None"
| "finite_value (Some (Finite x)) = Some x"
| "finite_value (Some PosInf) = None"
| "finite_value (Some NegInf) = None"
| "finite_value (Some NaN) = None"

text \<open>The running peak starts at \<open>float('-inf')\<close>, below every finite value: it is
  \<open>None\<close> until the first finite value is seen.\<close>

fun max_drawdown_loop :: "pyfloat option list \<Rightarrow> real option \<Rightarrow> real \<Rightarrow> real" where
  "max_drawdown_loop [] peak max_dd = max_dd"
| "max_drawdown_loop (v # values) peak max_dd =
     (case finite_value v of
        None \<Rightarrow> max_drawdown_loop values peak max_dd
      | Some x \<Rightarrow>
          let peak' = (case peak of None \<Rightarrow> x | Some p \<Rightarrow> if x > p then x else p);
              dd = (if peak' > 0 then x / peak' - 1 else 0);
              max_dd' = (if dd < max_dd then dd else max_dd)
          in max_drawdown_loop values (Some peak') max_dd')"

definition max_drawdown :: "pyfloat option list \<Rightarrow> real" where
  "max_drawdown values = max_drawdown_loop values None 0"

text \<open>The drawdown as the specification words it: the running peak of the curve up to
  each point, the drawdown \<open>equity / peak - 1\<close> at each point.\<close>

definition spec_running_peak :: "real list \<Rightarrow> nat \<Rightarrow> real" where
  "spec_running_peak xs i = Max (set (take (Suc i) xs))"

definition spec_running_peaks :: "real list \<Rightarrow> real list" where
  "spec_running_peaks xs = map (spec_running_peak xs) [0..<length xs]"

definition spec_drawdowns :: "real list \<Rightarrow> real list" where
  "spec_drawdowns xs = map (\<lambda>i. xs ! i / spec_running_peak xs i - 1) [0..<length xs]"

definition finite_values :: "pyfloat option list \<Rightarrow> real list" where
  "finite_values values = List.map_filter finite_value values"

section \<open>core/backtest.py\<close>

record BacktestResult =
  dates :: "string list"
  weights :: "real option list"
  strategy_equity :: "real option list"
  hodl_equity :: "real option list"
  strategy_return :: real
  hodl_return :: real
  strategy_max_drawdown :: real
  hodl_max_drawdown :: real
  last_trade :: "Trade option"

text \<open>\<open>e or 1.0\<close>: \<open>None\<close> and \<open>0.0\<close> are both falsy.\<close>

definition or_one :: "real option \<Rightarrow> real" where
  "or_one e = (case e of None \<Rightarrow> 1 | Some v \<Rightarrow> if v = 0 then 1 else v)"

text \<open>The loop \<open>for i in range(n - 1)\<close>; \<open>break\<close> returns the curves as they are.\<close>

fun equity_loop ::
  "pyfloat list \<Rightarrow> real option list \<Rightarrow> nat list \<Rightarrow> real option list \<Rightarrow> real option list
     \<Rightarrow> error + (real option list \<times> real option list)" where
  "equity_loop prices_slice weights_slice [] hodl strat = Inr (hodl, strat)"
| "equity_loop prices_slice weights_slice (i # idx) hodl strat =
     (if length prices_slice \<le> Suc i \<or> length weights_slice \<le> i then Inl IndexError
      else
        case prices_slice ! i of
          Finite p0 \<Rightarrow>
            (case prices_slice ! Suc i of
               Finite p1 \<Rightarrow>
                 (case weights_slice ! i of
                    Some wi \<Rightarrow>
                      if p0 \<le> 0 then Inr (hodl, strat)
                      else
                        let btc_return = p1 / p0;
                            hodl' = hodl[Suc i := Some (or_one (hodl ! i) * btc_return)];
                            portfolio_return = wi * btc_return + (1 - wi) * 1;
                            strat' = strat[Suc i := Some (or_one (strat ! i) * portfolio_return)]
                        in equity_loop prices_slice weights_slice idx hodl' strat'
                  | None \<Rightarrow> Inr (hodl, strat))
             | _ \<Rightarrow> Inr (hodl, strat))
        | _ \<Rightarrow> Inr (hodl, strat))"

text \<open>The condition of the \<open>break\<close> on day \<open>i\<close>:
  \<open>not np.isfinite(p0) or not np.isfinite(p1) or p0 <= 0 or wi is None\<close>.\<close>

definition break_at :: "pyfloat list \<Rightarrow> real option list \<Rightarrow> nat \<Rightarrow> bool" where
  "break_at prices_slice weights_slice i =
     (case prices_slice ! i of
        Finite p0 \<Rightarrow>
          (case prices_slice ! Suc i of
             Finite p1 \<Rightarrow> p0 \<le> 0 \<or> weights_slice ! i = None
           | _ \<Rightarrow> True)
      | _ \<Rightarrow> True)"

definition valid_values :: "real option list \<Rightarrow> real list" where
  "valid_values equity = map the (filter (\<lambda>v. v \<noteq> None) equity)"

definition run_backtest ::
  "string list \<Rightarrow> pyfloat list \<Rightarrow> pyfloat list \<Rightarrow> StrategyParams \<Rightarrow> int
     \<Rightarrow> error + BacktestResult" where
  "run_backtest dates' prices ratios params start_idx =
     (case compute_weight_series ratios dates' params start_idx of
        Inl e \<Rightarrow> Inl e
      | Inr (weights', last_trade') \<Rightarrow>
         (let dates_slice = py_slice_from dates' start_idx;
              prices_slice = py_slice_from prices start_idx;
              weights_slice = py_slice_from weights' start_idx;
              n = length dates_slice
          in if n = 0 then Inl IndexError
             else
              (case equity_loop prices_slice weights_slice [0..<n - 1]
                      ((replicate n None)[0 := Some 1]) ((replicate n None)[0 := Some 1]) of
                 Inl e \<Rightarrow> Inl e
               | Inr (hodl_equity', strategy_equity') \<Rightarrow>
                   let last_hodl = (case last hodl_equity' of Some v \<Rightarrow> v | None \<Rightarrow> 1);
                       last_strat = (case last strategy_equity' of Some v \<Rightarrow> v | None \<Rightarrow> 1);
                       valid_hodl = valid_values hodl_equity';
                       valid_strat = valid_values strategy_equity'
                   in Inr \<lparr>dates = dates_slice,
                           weights = weights_slice,
                           strategy_equity = strategy_equity',
                           hodl_equity = hodl_equity',
                           strategy_return = last_strat - 1,
                           hodl_return = last_hodl - 1,
                           strategy_max_drawdown =
                             max_drawdown (map (\<lambda>v. Some (Finite v)) valid_strat),
                           hodl_max_drawdown =
                             max_drawdown (map (\<lambda>v. Some (Finite v)) valid_hodl),
                           last_trade = last_trade'\<rparr>)))"

section \<open>core/data_store.py: stages of \<open>compute_channel\<close>\<close>

text \<open>
  \<open>compute_channel\<close> is embedded stage by stage. Dates are day numbers (the proleptic
  Gregorian ordinal, as \<open>date.toordinal()\<close> gives it), so that the difference of two
  timestamps in days is a subtraction. NumPy arrays of equal shape are lists of equal
  length, and an element-wise operation on arrays of different shapes raises.
\<close>

subsection \<open>Lines 164 to 172: the regression through the extrema\<close>





subsection \<open>Lines 174 to 190: the extension to the horizon\<close>










subsection \<open>Lines 202 to 211: the ratio indicator\<close>

text \<open>\<open>np.clip(a, lo, hi)\<close> is \<open>minimum(maximum(a, lo), hi)\<close>.\<close>

definition np_clip :: "real \<Rightarrow> real \<Rightarrow> real \<Rightarrow> real" where
  "np_clip a lo hi = min (max a lo) hi"

text \<open>\<open>ratio\<close> starts as an array of zeros; the masked assignment \<open>ratio[ok] = ...\<close>
  overwrites the entries where \<open>width > 0\<close> and leaves the others at zero.\<close>

definition ratio_indicator :: "real list \<Rightarrow> real list \<Rightarrow> real list \<Rightarrow> error + real list" where
  "ratio_indicator price peak_price_line trough_price_line =
     (let current_peak = take (length price) peak_price_line;
          current_trough = take (length price) trough_price_line
      in if length current_peak \<noteq> length current_trough \<or> length current_peak \<noteq> length price
         then Inl ValueError
         else
           let width = map (\<lambda>(a, b). a - b) (zip current_peak current_trough);
               ok = map (\<lambda>w. w > 0) width;
               ratio = map (\<lambda>i. if ok ! i
                                  then (price ! i - current_trough ! i) / width ! i * 100
                                  else 0) [0..<length price]
           in Inr (map (\<lambda>r. np_clip r 0 100) ratio))"

section \<open>The sell ladder\<close>

lemma clamp_unit_id: "0 \<le> v \<Longrightarrow> v \<le> 1 \<Longrightarrow> clamp v 0 1 = v"
  by (simp add: clamp_def)

lemma clamp_unit_range: "0 \<le> clamp v 0 1 \<and> clamp v 0 1 \<le> 1"
  by (simp add: clamp_def)

lemma sell_weight_range: "0 \<le> sell_weight ratio s l \<and> sell_weight ratio s l \<le> 1"
proof (cases ratio)
  case (Finite r)
  have sq: "0 \<le> b \<Longrightarrow> b \<le> 1 \<Longrightarrow> b * b \<le> 1" for b :: real
    by (simp add: mult_le_one)
  show ?thesis
    using clamp_unit_range sq
    by (simp add: sell_weight_def Finite Let_def)
qed (simp_all add: sell_weight_def)

text \<open>
  C5. For a sell-start threshold \<open>s\<close> in \<open>[0, 100)\<close> and any ladder name, the
  sell-ladder weight is 1 at position \<open>s\<close> and 0 at position 100; at the midpoint of the
  sell range (\<open>x = 1/2\<close>, position \<open>(s + 100) / 2\<close>) it is 3/4 for the soft ladder
  g0, 1/2 for the linear ladder g1 and 1/4 for the aggressive ladder g2.
\<close>

theorem sell_weight_ladder_values:
  assumes "0 \<le> s" and "s < 100"
  shows "sell_weight (Finite s) s l = 1
       \<and> sell_weight (Finite 100) s l = 0
       \<and> sell_weight (Finite ((s + 100) / 2)) s ''g0'' = 3 / 4
       \<and> sell_weight (Finite ((s + 100) / 2)) s ''g1'' = 1 / 2
       \<and> sell_weight (Finite ((s + 100) / 2)) s ''g2'' = 1 / 4"
proof -
  define m where "m = (s + 100) / 2"
  have m: "s < m" "m < 100" "\<not> 100 \<le> m" "\<not> m \<le> s" "\<not> 100 - s \<le> 0"
    using assms by (simp_all add: m_def)
  have mid: "(m - s) / (100 - s) = 1 / 2"
    using assms by (simp add: m_def field_simps)
  have ends: "sell_weight (Finite s) s l = 1" "sell_weight (Finite 100) s l = 0"
    using assms by (simp_all add: sell_weight_def)
  have g0: "sell_weight (Finite m) s ''g0'' = 3 / 4"
    using assms by (simp add: sell_weight_def Let_def m mid clamp_def)
  have g1: "sell_weight (Finite m) s ''g1'' = 1 / 2"
    using assms by (simp add: sell_weight_def Let_def m mid clamp_def)
  have g2: "sell_weight (Finite m) s ''g2'' = 1 / 4"
    using assms by (simp add: sell_weight_def Let_def m mid clamp_def)
  from ends g0 g1 g2 show ?thesis unfolding m_def by simp
qed

theorem sell_weight_ladder_values_witness:
  "sell_weight (Finite 46) 46 ''g1'' = 1
   \<and> sell_weight (Finite 100) 46 ''g1'' = 0
   \<and> sell_weight (Finite 73) 46 ''g0'' = 3 / 4
   \<and> sell_weight (Finite 73) 46 ''g1'' = 1 / 2
   \<and> sell_weight (Finite 73) 46 ''g2'' = 1 / 4"
  using sell_weight_ladder_values [of 46 "''g1''"] by simp

text \<open>
  C10. A ladder name other than g0 and g2, recognised or not, gives the weight that g1
  gives: nothing is rejected, and inside the sell range (\<open>s < r < 100\<close>) the weight
  is the linear formula \<open>1 - x\<close> with \<open>x = (r - s) / (100 - s)\<close>.
\<close>

theorem sell_weight_unknown_ladder_linear:
  assumes "l \<noteq> ''g0''" and "l \<noteq> ''g2''"
  shows "sell_weight ratio s l = sell_weight ratio s ''g1''
       \<and> (s < r \<and> r < 100 \<longrightarrow>
            sell_weight (Finite r) s l = clamp (1 - clamp ((r - s) / (100 - s)) 0 1) 0 1
          \<and> sell_weight (Finite r) s l = 1 - (r - s) / (100 - s))"
proof -
  have same: "sell_weight ratio s l = sell_weight ratio s ''g1''"
    using assms by (cases ratio) (simp_all add: sell_weight_def)
  have lin: "sell_weight (Finite r) s l = clamp (1 - clamp ((r - s) / (100 - s)) 0 1) 0 1
          \<and> sell_weight (Finite r) s l = 1 - (r - s) / (100 - s)" if "s < r" "r < 100"
  proof -
    have x: "0 \<le> (r - s) / (100 - s)" "(r - s) / (100 - s) \<le> 1"
      using that by (simp_all add: field_simps)
    have c: "clamp ((r - s) / (100 - s)) 0 1 = (r - s) / (100 - s)"
      using x by (rule clamp_unit_id)
    have c2: "clamp (1 - (r - s) / (100 - s)) 0 1 = 1 - (r - s) / (100 - s)"
      using x by (intro clamp_unit_id) simp_all
    have "sell_weight (Finite r) s l = clamp (1 - clamp ((r - s) / (100 - s)) 0 1) 0 1"
      using that assms by (simp add: sell_weight_def Let_def)
    then show ?thesis by (simp add: c c2)
  qed
  from same lin show ?thesis by blast
qed

theorem sell_weight_unknown_ladder_linear_witness:
  "''linear'' \<noteq> ''g0'' \<and> ''linear'' \<noteq> ''g2'' \<and> (46::real) < 73 \<and> (73::real) < 100
   \<and> sell_weight (Finite 73) 46 ''linear'' = sell_weight (Finite 73) 46 ''g1''
   \<and> sell_weight (Finite 73) 46 ''linear'' = 1 / 2"
  using sell_weight_unknown_ladder_linear [of "''linear''" "Finite 73" 46 73] by simp

section \<open>The daily transition\<close>

text \<open>For a threshold below 100 and the three ladder families, \<open>sell_weight\<close> is the
  specification's ladder value at the clamped, normalised position.\<close>

lemma sell_weight_spec_ladder:
  assumes "s \<le> r" and "s < 100" and "l = ''g0'' \<or> l = ''g1'' \<or> l = ''g2''"
  shows "sell_weight (Finite r) s l = spec_ladder_value l (clamp ((r - s) / (100 - s)) 0 1)"
proof -
  consider "r = s" | "100 \<le> r" | "s < r" "r < 100" using assms by linarith
  then show ?thesis
  proof cases
    case 1
    then show ?thesis using assms by (auto simp: sell_weight_def spec_ladder_value_def clamp_def)
  next
    case 2
    then have "1 \<le> (r - s) / (100 - s)" using assms by (simp add: field_simps)
    then have "clamp ((r - s) / (100 - s)) 0 1 = 1" by (simp add: clamp_def)
    then show ?thesis using 2 assms by (auto simp: sell_weight_def spec_ladder_value_def)
  next
    case 3
    then have x: "0 \<le> (r - s) / (100 - s)" "(r - s) / (100 - s) \<le> 1"
      by (simp_all add: field_simps)
    define x where "x = clamp ((r - s) / (100 - s)) 0 1"
    have xr: "0 \<le> x" "x \<le> 1" using clamp_unit_range[of "(r - s) / (100 - s)"] by (simp_all add: x_def)
    have a: "clamp (1 - x) 0 1 = 1 - x" using xr by (intro clamp_unit_id) simp_all
    have "x * x \<le> 1" using xr by (simp add: mult_le_one)
    then have b: "clamp (1 - x * x) 0 1 = 1 - x * x" by (intro clamp_unit_id) simp_all
    show ?thesis using 3 assms a b
      by (auto simp: sell_weight_def spec_ladder_value_def Let_def x_def[symmetric] power2_eq_square)
  qed
qed

text \<open>
  C4. Sell-only hysteresis. For every previous allocation, every configuration and
  every finite ratio at or above \<open>sell_start\<close>, the transition returns the minimum of
  the previous allocation and the ladder value \<open>sell_weight\<close>; it is never above the
  previous allocation, and it stays at the previous allocation when the ladder value is
  above it. For a threshold below 100 and a ladder of the three families the ladder
  value is the curve \<open>L(x)\<close> of the specification.
\<close>

theorem target_weight_sell_only_hysteresis:
  assumes "sell_start params \<le> r"
  shows "target_weight prev (Finite r) params
           = min prev (sell_weight (Finite r) (sell_start params) (ladder params))
       \<and> target_weight prev (Finite r) params \<le> prev
       \<and> (prev < sell_weight (Finite r) (sell_start params) (ladder params)
            \<longrightarrow> target_weight prev (Finite r) params = prev)
       \<and> (sell_start params < 100 \<and> ladder params \<in> {''g0'', ''g1'', ''g2''}
            \<longrightarrow> target_weight prev (Finite r) params
                  = min prev (spec_ladder_value (ladder params)
                       (clamp ((r - sell_start params) / (100 - sell_start params)) 0 1)))"
proof -
  have eq: "target_weight prev (Finite r) params
           = min prev (sell_weight (Finite r) (sell_start params) (ladder params))"
    using assms by (simp add: target_weight_def)
  have sp: "sell_weight (Finite r) (sell_start params) (ladder params)
          = spec_ladder_value (ladder params)
              (clamp ((r - sell_start params) / (100 - sell_start params)) 0 1)"
    if "sell_start params < 100" "ladder params \<in> {''g0'', ''g1'', ''g2''}"
    using sell_weight_spec_ladder[OF assms that(1)] that(2) by blast
  show ?thesis using eq sp by auto
qed

theorem target_weight_sell_only_hysteresis_witness:
  "sell_start \<lparr>ladder = ''g1'', sell_start = 46, buy_threshold = 14, reentry_mode = ''instant'',
       start_weight = 1, start_date = ''2018-01-01''\<rparr> \<le> (70::real)
   \<and> (2 / 5 :: real) < sell_weight (Finite 70) 46 ''g1''
   \<and> target_weight (2 / 5) (Finite 70)
        \<lparr>ladder = ''g1'', sell_start = 46, buy_threshold = 14, reentry_mode = ''instant'',
         start_weight = 1, start_date = ''2018-01-01''\<rparr> = 2 / 5"
  using target_weight_sell_only_hysteresis [of
      "\<lparr>ladder = ''g1'', sell_start = 46, buy_threshold = 14, reentry_mode = ''instant'',
        start_weight = 1, start_date = ''2018-01-01''\<rparr>" 70 "2 / 5"]
  by (simp add: sell_weight_def clamp_def)

text \<open>The transition keeps an allocation inside \<open>[0, 1]\<close>, whatever the ratio.\<close>

lemma target_weight_range:
  assumes "0 \<le> prev" and "prev \<le> 1"
  shows "0 \<le> target_weight prev ratio params \<and> target_weight prev ratio params \<le> 1"
proof (cases ratio)
  case (Finite r)
  show ?thesis
    using assms sell_weight_range[of "Finite r" "sell_start params" "ladder params"]
      clamp_unit_range
    by (simp add: target_weight_def Finite Let_def min_def)
qed (simp_all add: target_weight_def assms)

lemma gradual_eq:
  assumes "r < sell_start params" and "reentry_mode params \<noteq> ''instant''"
    and "reentry_mode params \<noteq> ''wait''"
  shows "target_weight cur (Finite r) params
       = clamp (cur + (1 - cur)
           * (clamp ((sell_start params - r) / max (sell_start params) (1 / 10 ^ 9)) 0 1)\<^sup>2) 0 1"
  using assms by (simp add: target_weight_def Let_def power2_eq_square)

lemma ease_in_unit:
  assumes "0 \<le> (cur::real)" and "cur \<le> 1" and "0 \<le> (f::real)" and "f \<le> 1"
  shows "cur \<le> cur + (1 - cur) * f\<^sup>2 \<and> cur + (1 - cur) * f\<^sup>2 \<le> 1"
proof -
  have f2: "0 \<le> f\<^sup>2" by simp
  have f2': "f\<^sup>2 \<le> 1" using assms by (simp add: power_le_one)
  have "0 \<le> (1 - cur) * f\<^sup>2" using assms f2 by simp
  moreover have "(1 - cur) * f\<^sup>2 \<le> (1 - cur) * 1"
    using assms f2' by (intro mult_left_mono) simp_all
  ultimately show ?thesis by simp
qed

text \<open>
  C6. Gradual re-entry (any re-entry mode other than instant and wait). For a previous
  allocation in \<open>[0, 1]\<close> and a finite position below \<open>sell_start\<close> the transition
  returns \<open>current + (1 - current) * f\<^sup>2\<close>, where
  \<open>f = clamp ((sell_start - position) / max sell_start 1e-9) 0 1\<close>: the divisor is
  guarded from below by \<open>1e-9\<close>, and is \<open>sell_start\<close> itself once
  \<open>sell_start \<ge> 1e-9\<close>. The result is at least the previous allocation, at most 1, and
  does not increase when the position increases.
\<close>

theorem target_weight_gradual_reentry:
  assumes "0 \<le> cur" and "cur \<le> 1" and "r < sell_start params"
    and "reentry_mode params \<noteq> ''instant''" and "reentry_mode params \<noteq> ''wait''"
  shows "target_weight cur (Finite r) params
           = cur + (1 - cur)
               * (clamp ((sell_start params - r) / max (sell_start params) (1 / 10 ^ 9)) 0 1)\<^sup>2
       \<and> (1 / 10 ^ 9 \<le> sell_start params \<longrightarrow>
            target_weight cur (Finite r) params
              = cur + (1 - cur) * (clamp ((sell_start params - r) / sell_start params) 0 1)\<^sup>2)
       \<and> cur \<le> target_weight cur (Finite r) params
       \<and> target_weight cur (Finite r) params \<le> 1
       \<and> (\<forall>r'. r \<le> r' \<and> r' < sell_start params \<longrightarrow>
            target_weight cur (Finite r') params \<le> target_weight cur (Finite r) params)"
proof -
  define d where "d = max (sell_start params) (1 / 10 ^ 9)"
  have d_pos: "0 < d" by (simp add: d_def max_def)
  define F where "F = (\<lambda>q. clamp ((sell_start params - q) / d) 0 1)"
  have F_range: "0 \<le> F q" "F q \<le> 1" for q
    using clamp_unit_range[of "(sell_start params - q) / d"] by (simp_all add: F_def)
  have val: "target_weight cur (Finite q) params = cur + (1 - cur) * (F q)\<^sup>2"
    if "q < sell_start params" for q
  proof -
    have "target_weight cur (Finite q) params = clamp (cur + (1 - cur) * (F q)\<^sup>2) 0 1"
      using gradual_eq[OF that assms(4,5)] by (simp add: F_def d_def)
    also have "\<dots> = cur + (1 - cur) * (F q)\<^sup>2"
      using ease_in_unit[OF assms(1,2) F_range(1)[of q] F_range(2)[of q]] assms(1) by (intro clamp_unit_id) linarith+
    finally show ?thesis .
  qed
  have a: "target_weight cur (Finite r) params
           = cur + (1 - cur)
               * (clamp ((sell_start params - r) / max (sell_start params) (1 / 10 ^ 9)) 0 1)\<^sup>2"
    using val[OF assms(3)] by (simp add: F_def d_def)
  have b: "target_weight cur (Finite r) params
              = cur + (1 - cur) * (clamp ((sell_start params - r) / sell_start params) 0 1)\<^sup>2"
    if "1 / 10 ^ 9 \<le> sell_start params"
  proof -
    have "max (sell_start params) (1 / 10 ^ 9) = sell_start params" using that by (simp add: max_def)
    then show ?thesis using a by simp
  qed
  have c: "cur \<le> target_weight cur (Finite r) params" "target_weight cur (Finite r) params \<le> 1"
    using val[OF assms(3)] ease_in_unit[OF assms(1,2) F_range(1)[of r] F_range(2)[of r]] by simp_all
  have mono: "target_weight cur (Finite r') params \<le> target_weight cur (Finite r) params"
    if "r \<le> r'" "r' < sell_start params" for r'
  proof -
    have "(sell_start params - r') / d \<le> (sell_start params - r) / d"
      using that d_pos by (simp add: divide_right_mono)
    then have "F r' \<le> F r" by (simp add: F_def clamp_def min_def max_def)
    then have "(F r')\<^sup>2 \<le> (F r)\<^sup>2" using F_range by (simp add: power_mono)
    then have "(1 - cur) * (F r')\<^sup>2 \<le> (1 - cur) * (F r)\<^sup>2"
      using assms(2) by (intro mult_left_mono) simp_all
    then show ?thesis using val[OF that(2)] val[OF assms(3)] by simp
  qed
  from a b c mono show ?thesis by blast
qed

theorem target_weight_gradual_reentry_witness:
  "(0::real) \<le> 1 / 2 \<and> (1 / 2 :: real) \<le> 1 \<and> 23 < sell_start gradual_params
   \<and> reentry_mode gradual_params \<noteq> ''instant'' \<and> reentry_mode gradual_params \<noteq> ''wait''
   \<and> 1 / 10 ^ 9 \<le> sell_start gradual_params
   \<and> target_weight (1 / 2) (Finite 23) gradual_params = 5 / 8
   \<and> (23 \<le> (30::real) \<and> 30 < sell_start gradual_params
        \<and> target_weight (1 / 2) (Finite 30) gradual_params
            \<le> target_weight (1 / 2) (Finite 23) gradual_params)"
  using target_weight_gradual_reentry [of "1 / 2" 23 gradual_params]
  by (simp add: gradual_params_def default_params_def clamp_def power2_eq_square)

text \<open>With \<open>sell_start = 5e-10\<close>, position 0 and previous allocation 0 the code divides
  by \<open>1e-9\<close> and returns 1/4, where the unguarded quotient gives 1.\<close>

theorem target_weight_gradual_reentry_counterexample:
  "target_weight 0 (Finite 0)
      \<lparr>ladder = ''g1'', sell_start = 1 / (2 * 10 ^ 9), buy_threshold = 14,
       reentry_mode = ''gradual'', start_weight = 1, start_date = ''2018-01-01''\<rparr> = 1 / 4
   \<and> 0 + (1 - 0) * (clamp ((1 / (2 * 10 ^ 9) - 0) / (1 / (2 * 10 ^ 9))) 0 1)\<^sup>2 = (1::real)"
  by (simp add: target_weight_def clamp_def Let_def)

section \<open>The weight series\<close>

lemma step_weight_range:
  assumes "0 \<le> w" and "w \<le> 1"
  shows "0 \<le> weight (step_weight w ratio params) \<and> weight (step_weight w ratio params) \<le> 1"
  using assms target_weight_range[OF assms, of ratio params]
  by (simp add: step_weight_def Let_def)

lemma py_position_less: "py_position n i = Some j \<Longrightarrow> j < n"
  by (auto simp: py_position_def split: if_splits)

text \<open>The loop keeps the running weight in \<open>[0, 1]\<close>, writes such a weight at every
  position one of its indices denotes, and leaves the other positions alone.\<close>

lemma weight_loop_inv:
  assumes "weight_loop ratios ds params idx ws w lt = Inr (ws', w', lt')"
    and "0 \<le> w" and "w \<le> 1"
  shows "length ws' = length ws \<and> 0 \<le> w' \<and> w' \<le> 1
       \<and> (\<forall>j<length ws.
             ((\<exists>i\<in>set idx. py_position (length ws) i = Some j)
                \<longrightarrow> (\<exists>v. ws' ! j = Some v \<and> 0 \<le> v \<and> v \<le> 1))
           \<and> ((\<forall>i\<in>set idx. py_position (length ws) i \<noteq> Some j) \<longrightarrow> ws' ! j = ws ! j))"
  using assms
proof (induction idx arbitrary: ws w lt)
  case Nil
  then show ?case by simp
next
  case (Cons i idx)
  from Cons.prems(1) obtain ratio where ratio: "py_index ratios i = Inr ratio"
    by (auto split: sum.splits)
  define st where "st = step_weight w ratio params"
  have st_range: "0 \<le> weight st" "weight st \<le> 1"
    using step_weight_range[OF Cons.prems(2,3), of ratio params] by (simp_all add: st_def)
  from Cons.prems(1) ratio obtain k lt1 where
    k: "py_position (length ws) i = Some k" and
    rest: "weight_loop ratios ds params idx (ws[k := Some (weight st)]) (weight st) lt1
             = Inr (ws', w', lt')"
    by (auto simp: Let_def st_def py_store_def split: sum.splits option.splits if_splits)
  note IH = Cons.IH[OF rest st_range]
  have kn: "k < length ws" using k by (rule py_position_less)
  show ?case
  proof (intro conjI allI impI)
    show "length ws' = length ws" using IH by simp
    show "0 \<le> w'" "w' \<le> 1" using IH by simp_all
  next
    fix j assume j: "j < length ws"
      and ex: "\<exists>i'\<in>set (i # idx). py_position (length ws) i' = Some j"
    show "\<exists>v. ws' ! j = Some v \<and> 0 \<le> v \<and> v \<le> 1"
    proof (cases "\<exists>i'\<in>set idx. py_position (length ws) i' = Some j")
      case True
      then show ?thesis using IH j by simp
    next
      case False
      then have "k = j" using ex k by auto
      moreover have "ws' ! j = (ws[k := Some (weight st)]) ! j" using IH j False by simp
      ultimately show ?thesis using st_range kn by simp
    qed
  next
    fix j assume j: "j < length ws"
      and no: "\<forall>i'\<in>set (i # idx). py_position (length ws) i' \<noteq> Some j"
    then have "k \<noteq> j" using k by auto
    moreover have "ws' ! j = (ws[k := Some (weight st)]) ! j" using IH j no by simp
    ultimately show "ws' ! j = ws ! j" by simp
  qed
qed

text \<open>With indices inside both lists the loop raises nothing.\<close>

lemma weight_loop_total:
  assumes "\<forall>i\<in>set idx. py_position (length ratios) i \<noteq> None"
    and "length ds = length ratios" and "length ws = length ratios"
  shows "\<exists>res. weight_loop ratios ds params idx ws w lt = Inr res"
  using assms
proof (induction idx arbitrary: ws w lt)
  case Nil
  then show ?case by simp
next
  case (Cons i idx)
  from Cons.prems obtain k where k: "py_position (length ratios) i = Some k" by auto
  have len: "length (ws[k := v]) = length ratios" for v using Cons.prems by simp
  have tl: "\<forall>i\<in>set idx. py_position (length ratios) i \<noteq> None" using Cons.prems by simp
  show ?case
    using k Cons.prems(2,3) Cons.IH[OF tl Cons.prems(2) len]
    by (simp add: py_index_def py_store_def Let_def)
qed


lemma compute_weight_series_entries:
  assumes "compute_weight_series ratios ds params start_idx = Inr (ws, lt)"
    and "0 \<le> start_weight params" and "start_weight params \<le> 1"
  shows "length ws = length ratios
       \<and> (\<forall>j<length ratios.
             (int j < start_idx \<longrightarrow> ws ! j = None)
           \<and> (start_idx \<le> int j \<longrightarrow> (\<exists>v. ws ! j = Some v \<and> 0 \<le> v \<and> v \<le> 1)))"
proof -
  define n where "n = length ratios"
  define idx where "idx = py_range start_idx (int n)"
  from assms(1) obtain w' where
    run: "weight_loop ratios ds params idx (replicate n None) (start_weight params) None
            = Inr (ws, w', lt)"
    by (auto simp: compute_weight_series_def idx_def n_def split: sum.splits)
  note inv = weight_loop_inv[OF run assms(2,3)]
  have idx_set: "set idx = {start_idx..int n - 1}" by (simp add: idx_def py_range_def)
  show ?thesis
  proof (intro conjI allI impI)
    show "length ws = length ratios" using inv by (simp add: n_def)
  next
    fix j assume j: "j < length ratios" and before: "int j < start_idx"
    have "\<forall>i\<in>set idx. py_position n i \<noteq> Some j"
      using before by (auto simp: idx_set py_position_def split: if_splits)
    then have "ws ! j = replicate n None ! j" using inv j by (simp add: n_def)
    then show "ws ! j = None" using j by (simp add: n_def)
  next
    fix j assume j: "j < length ratios" and ge: "start_idx \<le> int j"
    have "int j \<in> set idx" using j ge by (simp add: idx_set n_def)
    moreover have "py_position n (int j) = Some j" using j by (simp add: py_position_def n_def)
    ultimately have "\<exists>i\<in>set idx. py_position n i = Some j" by blast
    then show "\<exists>v. ws ! j = Some v \<and> 0 \<le> v \<and> v \<le> 1" using inv j by (simp add: n_def)
  qed
qed

lemma compute_weight_series_returns:
  assumes "- int (length ratios) \<le> start_idx" and "length ds = length ratios"
  shows "\<exists>ws lt. compute_weight_series ratios ds params start_idx = Inr (ws, lt)"
proof -
  have "\<forall>i\<in>set (py_range start_idx (int (length ratios))). py_position (length ratios) i \<noteq> None"
    using assms(1) by (auto simp: py_range_def py_position_def)
  from weight_loop_total[OF this assms(2), of "replicate (length ratios) None" params
      "start_weight params" None]
  obtain res where "weight_loop ratios ds params (py_range start_idx (int (length ratios)))
      (replicate (length ratios) None) (start_weight params) None = Inr res"
    by auto
  then show ?thesis by (cases res) (auto simp: compute_weight_series_def)
qed

text \<open>
  C7. Allocation range invariant. With \<open>start_weight\<close> in \<open>[0, 1]\<close>, for every ratio
  sequence and every start index, a weight series that \<open>compute_weight_series\<close> returns
  has one entry per ratio, each entry before the start index undefined (\<open>None\<close>) and
  each entry from the start index onward a weight in \<open>[0, 1]\<close>; a series is returned
  whenever the start index is not below \<open>-len(ratios)\<close> and there is a date for every
  ratio. The one-step transition maps a previous weight in \<open>[0, 1]\<close> to a weight in
  \<open>[0, 1]\<close> for every ratio, finite or not.
\<close>

theorem allocation_range_invariant:
  assumes "0 \<le> start_weight params" and "start_weight params \<le> 1"
  shows "(\<forall>ws lt. compute_weight_series ratios ds params start_idx = Inr (ws, lt) \<longrightarrow>
            length ws = length ratios
          \<and> (\<forall>j<length ratios.
                (int j < start_idx \<longrightarrow> ws ! j = None)
              \<and> (start_idx \<le> int j \<longrightarrow> (\<exists>v. ws ! j = Some v \<and> 0 \<le> v \<and> v \<le> 1))))
       \<and> (- int (length ratios) \<le> start_idx \<and> length ds = length ratios \<longrightarrow>
            (\<exists>ws lt. compute_weight_series ratios ds params start_idx = Inr (ws, lt)))
       \<and> (\<forall>prev ratio. 0 \<le> prev \<and> prev \<le> 1 \<longrightarrow>
            0 \<le> target_weight prev ratio params \<and> target_weight prev ratio params \<le> 1)"
  using compute_weight_series_entries[OF _ assms] compute_weight_series_returns
    target_weight_range
  by blast

theorem allocation_range_invariant_witness:
  "0 \<le> start_weight default_params \<and> start_weight default_params \<le> 1
   \<and> compute_weight_series [Finite 30, Finite 73, NaN, Finite 10]
        [''2018-01-01'', ''2018-01-02'', ''2018-01-03'', ''2018-01-04''] default_params 1
      = Inr ([None, Some (1 / 2), Some (1 / 2), Some 1],
             Some \<lparr>trade_date = ''2018-01-04'', trade_action = ''BUY / REBALANCE UP'',
                   trade_ratio = Finite 10, trade_weight = 1, trade_tag = ''buy''\<rparr>)
   \<and> - int (length [Finite 30, Finite 73, NaN, Finite 10]) \<le> 1
   \<and> length [''2018-01-01'', ''2018-01-02'', ''2018-01-03'', ''2018-01-04'']
       = length [Finite 30, Finite 73, NaN, Finite 10]
   \<and> (0::real) \<le> 1 / 2 \<and> (1 / 2 :: real) \<le> 1
   \<and> 0 \<le> target_weight (1 / 2) NaN default_params
   \<and> target_weight (1 / 2) NaN default_params \<le> 1"
proof -
  have h: "0 \<le> start_weight default_params" "start_weight default_params \<le> 1"
    by (simp_all add: default_params_def)
  have ev: "compute_weight_series [Finite 30, Finite 73, NaN, Finite 10]
        [''2018-01-01'', ''2018-01-02'', ''2018-01-03'', ''2018-01-04''] default_params 1
      = Inr ([None, Some (1 / 2), Some (1 / 2), Some 1],
             Some \<lparr>trade_date = ''2018-01-04'', trade_action = ''BUY / REBALANCE UP'',
                   trade_ratio = Finite 10, trade_weight = 1, trade_tag = ''buy''\<rparr>)"
    by (simp add: compute_weight_series_def py_range_def py_index_def py_store_def
        py_position_def step_weight_def target_weight_def sell_weight_def clamp_def
        default_params_def Let_def upto.simps)
  have step: "0 \<le> target_weight (1 / 2) NaN default_params
            \<and> target_weight (1 / 2) NaN default_params \<le> 1"
    using allocation_range_invariant [OF h, of "[Finite 30, Finite 73, NaN, Finite 10]"
      "[''2018-01-01'', ''2018-01-02'', ''2018-01-03'', ''2018-01-04'']" 1]
    by simp
  show ?thesis using h ev step by simp
qed

section \<open>Maximum drawdown\<close>

lemma max_drawdown_loop_le: "max_drawdown_loop vs peak m \<le> m"
proof (induction vs arbitrary: peak m)
  case Nil
  then show ?case by simp
next
  case (Cons v vs)
  show ?case
  proof (cases "finite_value v")
    case None
    then show ?thesis using Cons.IH[of peak m] by simp
  next
    case (Some x)
    define pk where "pk = (case peak of None \<Rightarrow> x | Some p \<Rightarrow> if x > p then x else p)"
    define dd where "dd = (if pk > 0 then x / pk - 1 else 0)"
    have "max_drawdown_loop (v # vs) peak m
            = max_drawdown_loop vs (Some pk) (if dd < m then dd else m)"
      by (simp add: Some Let_def pk_def dd_def)
    also have "\<dots> \<le> (if dd < m then dd else m)" by (rule Cons.IH)
    also have "\<dots> \<le> m" by simp
    finally show ?thesis .
  qed
qed

text \<open>Values that are \<open>None\<close> or not finite are skipped.\<close>

lemma max_drawdown_loop_finite_values:
  "max_drawdown_loop vs peak m
     = max_drawdown_loop (map (\<lambda>x. Some (Finite x)) (finite_values vs)) peak m"
proof (induction vs arbitrary: peak m)
  case Nil
  then show ?case by (simp add: finite_values_def)
next
  case (Cons v vs)
  show ?case
  proof (cases "finite_value v")
    case None
    then show ?thesis using Cons.IH[of peak m] by (simp add: finite_values_def)
  next
    case (Some x)
    then show ?thesis using Cons.IH by (simp add: finite_values_def Let_def)
  qed
qed

lemma Min_insert_min:
  fixes m d :: real
  assumes "finite S"
  shows "Min (insert m (insert d S)) = Min (insert (min m d) S)"
proof (cases "S = {}")
  case True
  then show ?thesis by (simp add: min.commute)
next
  case False
  then show ?thesis using assms by (simp add: min.assoc)
qed

lemma running_peak_append:
  "pre \<noteq> [] \<Longrightarrow> spec_running_peak (pre @ y # ys) (length pre) = max (Max (set pre)) y"
  by (simp add: spec_running_peak_def max.commute)

text \<open>The loop from the middle of a curve: \<open>pre\<close> has been read, its maximum is the
  running peak, \<open>m \<le> 0\<close> is the drawdown so far.\<close>

lemma max_drawdown_loop_spec:
  assumes "pre \<noteq> []" and "m \<le> 0"
    and "\<forall>i<length (pre @ ys). spec_running_peak (pre @ ys) i \<noteq> 0"
  shows "max_drawdown_loop (map (\<lambda>x. Some (Finite x)) ys) (Some (Max (set pre))) m
       = Min (insert m ((\<lambda>i. (pre @ ys) ! i / spec_running_peak (pre @ ys) i - 1)
                          ` {length pre..<length (pre @ ys)}))"
  using assms
proof (induction ys arbitrary: pre m)
  case Nil
  then show ?case by simp
next
  case (Cons y ys)
  define P where "P = max (Max (set pre)) y"
  define g where "g = (\<lambda>i. (pre @ y # ys) ! i / spec_running_peak (pre @ y # ys) i - 1)"
  have peak: "spec_running_peak (pre @ y # ys) (length pre) = P"
    using Cons.prems(1) by (simp add: running_peak_append P_def)
  have P0: "P \<noteq> 0" using Cons.prems(3) peak by (metis length_append length_Cons less_add_Suc1 add_Suc_right)
  have gk: "g (length pre) = y / P - 1" by (simp add: g_def peak)
  define dd where "dd = (if P > 0 then y / P - 1 else 0)"
  have Pmax: "(if Max (set pre) < y then y else Max (set pre)) = P" by (simp add: P_def max_def)
  have mdd: "(if dd < m then dd else m) = min m (g (length pre))"
  proof (cases "P > 0")
    case True
    then show ?thesis by (simp add: dd_def gk min_def)
  next
    case False
    then have neg: "P < 0" using P0 by simp
    have "y \<le> P" by (simp add: P_def)
    then have "1 \<le> y / P" using neg by (simp add: divide_le_eq)  
    then have "0 \<le> g (length pre)" by (simp add: gk)
    then show ?thesis using False Cons.prems(2) by (simp add: dd_def min_def)
  qed
  have m': "min m (g (length pre)) \<le> 0" using Cons.prems(2) by (simp add: min_def)
  have pre': "pre @ [y] \<noteq> []" by simp
  have app: "(pre @ [y]) @ ys = pre @ y # ys" by simp
  have MaxP: "Max (set (pre @ [y])) = P" using Cons.prems(1) by (simp add: P_def max.commute)
  have hyp': "\<forall>i<length ((pre @ [y]) @ ys). spec_running_peak ((pre @ [y]) @ ys) i \<noteq> 0"
    using Cons.prems(3) unfolding app .
  have len: "length (pre @ [y]) = Suc (length pre)" by simp
  have IH: "max_drawdown_loop (map (\<lambda>x. Some (Finite x)) ys) (Some P) (min m (g (length pre)))
       = Min (insert (min m (g (length pre))) (g ` {Suc (length pre)..<length (pre @ y # ys)}))"
    using Cons.IH[OF pre' m' hyp'] unfolding app MaxP len g_def .
  have split: "{length pre..<length (pre @ y # ys)}
             = insert (length pre) {Suc (length pre)..<length (pre @ y # ys)}"
    by auto
  have "max_drawdown_loop (map (\<lambda>x. Some (Finite x)) (y # ys)) (Some (Max (set pre))) m
      = max_drawdown_loop (map (\<lambda>x. Some (Finite x)) ys) (Some P) (if dd < m then dd else m)"
    by (simp add: Let_def Pmax dd_def)
  also have "\<dots> = Min (insert (min m (g (length pre))) (g ` {Suc (length pre)..<length (pre @ y # ys)}))"
    using IH by (simp add: mdd)
  also have "\<dots> = Min (insert m (insert (g (length pre)) (g ` {Suc (length pre)..<length (pre @ y # ys)})))"
    by (rule Min_insert_min[symmetric]) simp
  also have "\<dots> = Min (insert m (g ` {length pre..<length (pre @ y # ys)}))"
    by (simp only: split image_insert)
  finally show ?case by (simp add: g_def)
qed


lemma max_drawdown_real_spec:
  assumes "xs \<noteq> []" and "0 \<notin> set (spec_running_peaks xs)"
  shows "max_drawdown (map (\<lambda>x. Some (Finite x)) xs) = Min (set (spec_drawdowns xs))"
proof -
  obtain y ys where xs: "xs = y # ys" using assms(1) by (cases xs) auto
  have pk: "\<forall>i<length xs. spec_running_peak xs i \<noteq> 0"
    using assms(2) by (auto simp: spec_running_peaks_def)
  have pk': "\<forall>i<length ([y] @ ys). spec_running_peak ([y] @ ys) i \<noteq> 0"
    using pk by (simp add: xs)
  have "spec_running_peak xs 0 = y" by (simp add: spec_running_peak_def xs)
  then have y0: "y \<noteq> 0" using pk xs by auto
  define g where "g = (\<lambda>i. xs ! i / spec_running_peak xs i - 1)"
  have g0: "g 0 = 0" using y0 by (simp add: g_def spec_running_peak_def xs)
  have "max_drawdown (map (\<lambda>x. Some (Finite x)) xs)
      = max_drawdown_loop (map (\<lambda>x. Some (Finite x)) ys) (Some (Max (set [y]))) 0"
    by (simp add: max_drawdown_def xs Let_def)
  also have "\<dots> = Min (insert 0 (g ` {length [y]..<length ([y] @ ys)}))"
    using max_drawdown_loop_spec[of "[y]" 0 ys, OF _ _ pk'] by (simp add: g_def xs)
  also have "insert 0 (g ` {length [y]..<length ([y] @ ys)}) = g ` {0..<length xs}"
  proof -
    have "{0..<length xs} = insert 0 {length [y]..<length ([y] @ ys)}"
      by (auto simp: xs)
    then show ?thesis by (simp add: g0)
  qed
  also have "g ` {0..<length xs} = set (spec_drawdowns xs)"
    by (simp add: spec_drawdowns_def g_def)
  finally show ?thesis .
qed

text \<open>On a curve that only rises every value is the running peak.\<close>

lemma max_drawdown_loop_sorted:
  assumes "sorted ys" and "\<forall>y\<in>set ys. P \<le> y"
  shows "max_drawdown_loop (map (\<lambda>x. Some (Finite x)) ys) (Some P) 0 = 0"
  using assms
proof (induction ys arbitrary: P)
  case Nil
  then show ?case by simp
next
  case (Cons y ys)
  have "P \<le> y" using Cons.prems(2) by simp
  then have pk: "(if P < y then y else P) = y" by simp
  have "\<forall>z\<in>set ys. y \<le> z" using Cons.prems(1) by simp
  moreover have "sorted ys" using Cons.prems(1) by simp
  ultimately have "max_drawdown_loop (map (\<lambda>x. Some (Finite x)) ys) (Some y) 0 = 0"
    by (rule Cons.IH[rotated])
  then show ?case by (simp add: Let_def pk)
qed

lemma max_drawdown_real_sorted:
  assumes "sorted xs"
  shows "max_drawdown (map (\<lambda>x. Some (Finite x)) xs) = 0"
proof (cases xs)
  case Nil
  then show ?thesis by (simp add: max_drawdown_def)
next
  case (Cons y ys)
  have "max_drawdown_loop (map (\<lambda>x. Some (Finite x)) ys) (Some y) 0 = 0"
    using assms by (intro max_drawdown_loop_sorted) (simp_all add: Cons)
  then show ?thesis by (simp add: max_drawdown_def Cons Let_def)
qed

lemma max_drawdown_finite_values:
  "max_drawdown values = max_drawdown (map (\<lambda>x. Some (Finite x)) (finite_values values))"
  unfolding max_drawdown_def by (rule max_drawdown_loop_finite_values)

text \<open>
  C9. Maximum drawdown. The reported value is never above 0. On the finite values of
  the sequence, provided there is one and no running peak is 0 (where
  \<open>equity / peak\<close> has no value), it is the least of the drawdowns
  \<open>equity / running_peak - 1\<close>. It is 0 when the curve only rises. For
  \<open>[1.0, 1.5, 1.2, 1.8, 0.9]\<close> it is \<open>0.9 / 1.8 - 1 = -0.5\<close>.
\<close>

theorem max_drawdown_most_negative:
  "max_drawdown values \<le> 0
   \<and> (finite_values values \<noteq> [] \<and> 0 \<notin> set (spec_running_peaks (finite_values values))
        \<longrightarrow> max_drawdown values = Min (set (spec_drawdowns (finite_values values))))
   \<and> (sorted (finite_values values) \<longrightarrow> max_drawdown values = 0)
   \<and> max_drawdown (map (\<lambda>x. Some (Finite x)) [1, 3 / 2, 6 / 5, 9 / 5, 9 / 10])
        = (9 / 10) / (9 / 5) - 1
   \<and> max_drawdown (map (\<lambda>x. Some (Finite x)) [1, 3 / 2, 6 / 5, 9 / 5, 9 / 10]) = - 1 / 2"
proof -
  have a: "max_drawdown values \<le> 0"
    unfolding max_drawdown_def by (rule max_drawdown_loop_le)
  have b: "max_drawdown values = Min (set (spec_drawdowns (finite_values values)))"
    if "finite_values values \<noteq> []" "0 \<notin> set (spec_running_peaks (finite_values values))"
    using max_drawdown_real_spec[OF that] max_drawdown_finite_values[of "values"] by simp
  have c: "max_drawdown values = 0" if "sorted (finite_values values)"
    using max_drawdown_real_sorted[OF that] max_drawdown_finite_values[of "values"] by simp
  have d: "max_drawdown (map (\<lambda>x. Some (Finite x)) [1, 3 / 2, 6 / 5, 9 / 5, 9 / 10]) = - 1 / 2"
    by (simp add: max_drawdown_def Let_def)
  from a b c d show ?thesis by simp
qed

theorem max_drawdown_most_negative_witness:
  "finite_values [Some (Finite 1), None, Some (Finite 2), Some NaN, Some (Finite 1)] = [1, 2, 1]
   \<and> [1, 2, 1 :: real] \<noteq> []
   \<and> spec_running_peaks [1, 2, 1] = [1, 2, 2]
   \<and> (0::real) \<notin> set [1, 2, 2]
   \<and> spec_drawdowns [1, 2, 1] = [0, 0, - 1 / 2]
   \<and> max_drawdown [Some (Finite 1), None, Some (Finite 2), Some NaN, Some (Finite 1)] = - 1 / 2
   \<and> sorted (finite_values [Some (Finite 1), Some (Finite (11 / 10)), Some (Finite (6 / 5))])
   \<and> max_drawdown [Some (Finite 1), Some (Finite (11 / 10)), Some (Finite (6 / 5))] = 0"
proof -
  have fv: "finite_values [Some (Finite 1), None, Some (Finite 2), Some NaN, Some (Finite 1)]
          = [1, 2, 1]"
    by (simp add: finite_values_def List.map_filter_simps)
  have pk: "spec_running_peaks [1, 2, 1] = [1, 2, 2]"
    by (simp add: spec_running_peaks_def spec_running_peak_def upt_rec)
  have dd: "spec_drawdowns [1, 2, 1] = [0, 0, - 1 / 2]"
    by (simp add: spec_drawdowns_def spec_running_peak_def upt_rec)
  have so: "sorted (finite_values [Some (Finite 1), Some (Finite (11 / 10)), Some (Finite (6 / 5))])"
    by (simp add: finite_values_def List.map_filter_simps)
  have m1: "max_drawdown [Some (Finite 1), None, Some (Finite 2), Some NaN, Some (Finite 1)]
          = - 1 / 2"
    using max_drawdown_most_negative
      [of "[Some (Finite 1), None, Some (Finite 2), Some NaN, Some (Finite 1)]"]
    by (simp add: fv pk dd)
  have m2: "max_drawdown [Some (Finite 1), Some (Finite (11 / 10)), Some (Finite (6 / 5))] = 0"
    using max_drawdown_most_negative
      [of "[Some (Finite 1), Some (Finite (11 / 10)), Some (Finite (6 / 5))]"] so
    by simp
  show ?thesis using fv pk dd so m1 m2 by simp
qed

section \<open>The backtest\<close>

lemma break_at_iff:
  "\<not> break_at ps ws i
     \<longleftrightarrow> (\<exists>p0 p1 w. ps ! i = Finite p0 \<and> 0 < p0 \<and> ps ! Suc i = Finite p1 \<and> ws ! i = Some w)"
  by (auto simp: break_at_def split: pyfloat.splits)

lemma equity_loop_break:
  assumes "break_at ps ws i" and "Suc i < length ps" and "i < length ws"
  shows "equity_loop ps ws (i # idx) hodl strat = Inr (hodl, strat)"
  using assms by (auto simp: break_at_def split: pyfloat.splits option.splits)

lemma equity_loop_step:
  assumes "ps ! i = Finite p0" and "0 < p0" and "ps ! Suc i = Finite p1" and "ws ! i = Some w"
    and "Suc i < length ps" and "i < length ws"
  shows "equity_loop ps ws (i # idx) hodl strat
       = equity_loop ps ws idx
           (hodl[Suc i := Some (or_one (hodl ! i) * (p1 / p0))])
           (strat[Suc i := Some (or_one (strat ! i) * (w * (p1 / p0) + (1 - w) * 1))])"
  using assms by (simp add: Let_def)

lemma equity_loop_raises:
  assumes "equity_loop ps ws (i # idx) hodl strat = Inr r"
  shows "Suc i < length ps \<and> i < length ws"
  using assms by (auto split: if_splits)

lemma portfolio_return_zero:
  fixes w r :: real
  assumes "0 \<le> w" and "w \<le> 1" and "0 < r"
  shows "w * r + (1 - w) * 1 \<noteq> 0"
proof (cases "w = 0")
  case True
  then show ?thesis by simp
next
  case False
  then have "0 < w * r" using assms by simp
  moreover have "0 \<le> 1 - w" using assms by simp
  ultimately show ?thesis by simp
qed

text \<open>The loop from day \<open>k\<close> on. Both curves are defined at \<open>k\<close> and nowhere later;
  a curve value at \<open>k\<close> is zero only if the price of day \<open>k\<close> is not positive, so
  that \<open>or 1.0\<close> never replaces a value on a day that is simulated.\<close>

lemma equity_loop_inv:
  assumes "k \<le> m" and "m < n"
    and "equity_loop ps ws [k..<m] hodl strat = Inr (hodl', strat')"
    and "length hodl = n" and "length strat = n"
    and "\<forall>i<length ws. \<forall>w. ws ! i = Some w \<longrightarrow> 0 \<le> w \<and> w \<le> 1"
    and "\<exists>h s. hodl ! k = Some h \<and> strat ! k = Some s
           \<and> (h = 0 \<or> s = 0 \<longrightarrow> (\<forall>p. ps ! k = Finite p \<longrightarrow> p \<le> 0))"
    and "\<forall>j. k < j \<and> j < n \<longrightarrow> hodl ! j = None \<and> strat ! j = None"
  shows "length hodl' = n \<and> length strat' = n
       \<and> (\<forall>j\<le>k. hodl' ! j = hodl ! j \<and> strat' ! j = strat ! j)
       \<and> (\<forall>i. k \<le> i \<and> i < m \<longrightarrow>
            ((\<forall>j. k \<le> j \<and> j \<le> i \<longrightarrow> \<not> break_at ps ws j) \<longrightarrow>
               (\<exists>p0 p1 w h s.
                  ps ! i = Finite p0 \<and> 0 < p0 \<and> ps ! Suc i = Finite p1 \<and> ws ! i = Some w
                \<and> hodl' ! i = Some h \<and> strat' ! i = Some s
                \<and> hodl' ! Suc i = Some (h * (p1 / p0))
                \<and> strat' ! Suc i = Some (s * (w * (p1 / p0) + (1 - w) * 1))))
          \<and> ((\<exists>j. k \<le> j \<and> j \<le> i \<and> break_at ps ws j) \<longrightarrow>
               hodl' ! Suc i = None \<and> strat' ! Suc i = None))"
  using assms
proof (induction k arbitrary: hodl strat rule: inc_induct)
  case base
  then show ?case by auto
next
  case (step k)
  have upt: "[k..<m] = k # [Suc k..<m]" using step.hyps(2) by (simp add: upt_conv_Cons)
  have run: "equity_loop ps ws (k # [Suc k..<m]) hodl strat = Inr (hodl', strat')"
    using step.prems(2) upt by simp
  have inb: "Suc k < length ps" "k < length ws"
    using equity_loop_raises[OF run] by simp_all
  from step.prems(6) obtain h s where
    hs: "hodl ! k = Some h" "strat ! k = Some s"
    and zero: "h = 0 \<or> s = 0 \<longrightarrow> (\<forall>p. ps ! k = Finite p \<longrightarrow> p \<le> 0)"
    by blast
  show ?case
  proof (cases "break_at ps ws k")
    case True
    have same: "hodl' = hodl" "strat' = strat"
      using run equity_loop_break[OF True inb] by simp_all
    have later: "hodl ! Suc i = None \<and> strat ! Suc i = None" if "k \<le> i" "i < m" for i
      using step.prems(7) that step.prems(1) by simp
    show ?thesis
      using True later step.prems(3,4) by (auto simp: same)
  next
    case False
    then obtain p0 p1 w where
      day: "ps ! k = Finite p0" "0 < p0" "ps ! Suc k = Finite p1" "ws ! k = Some w"
      using break_at_iff by blast
    have w: "0 \<le> w" "w \<le> 1" using step.prems(5) day(4) inb(2) by blast+
    have nz: "h \<noteq> 0" "s \<noteq> 0" using zero day(1,2) by auto
    define hodl1 where "hodl1 = hodl[Suc k := Some (h * (p1 / p0))]"
    define strat1 where "strat1 = strat[Suc k := Some (s * (w * (p1 / p0) + (1 - w) * 1))]"
    have run1: "equity_loop ps ws [Suc k..<m] hodl1 strat1 = Inr (hodl', strat')"
      using run equity_loop_step[OF day inb, of "[Suc k..<m]" hodl strat] hs nz
      by (simp add: or_one_def hodl1_def strat1_def)
    have len1: "length hodl1 = n" "length strat1 = n"
      using step.prems(3,4) by (simp_all add: hodl1_def strat1_def)
    have kn: "Suc k < n" using step.hyps(2) step.prems(1) by simp
    have cur1: "\<exists>h' s'. hodl1 ! Suc k = Some h' \<and> strat1 ! Suc k = Some s'
           \<and> (h' = 0 \<or> s' = 0 \<longrightarrow> (\<forall>p. ps ! Suc k = Finite p \<longrightarrow> p \<le> 0))"
    proof -
      have "p1 \<le> 0" if "h * (p1 / p0) = 0 \<or> s * (w * (p1 / p0) + (1 - w) * 1) = 0"
      proof (rule ccontr)
        assume "\<not> p1 \<le> 0"
        then have p1: "0 < p1" by simp
        have r: "0 < p1 / p0" using p1 day(2) by simp
        have "h * (p1 / p0) \<noteq> 0" using nz(1) p1 day(2) by simp
        moreover have "s * (w * (p1 / p0) + (1 - w) * 1) \<noteq> 0"
          using portfolio_return_zero[OF w r] nz by simp
        ultimately show False using that by simp
      qed
      then show ?thesis
        using kn step.prems(3,4) day(3) by (simp add: hodl1_def strat1_def)
    qed
    have later1: "\<forall>j. Suc k < j \<and> j < n \<longrightarrow> hodl1 ! j = None \<and> strat1 ! j = None"
      using step.prems(7) by (simp add: hodl1_def strat1_def)
    note IH = step.IH[OF step.prems(1) run1 len1 step.prems(5) cur1 later1]
    have keep: "hodl' ! j = hodl1 ! j \<and> strat' ! j = strat1 ! j" if "j \<le> Suc k" for j
      using IH that by blast
    have atk: "hodl' ! k = Some h" "strat' ! k = Some s"
      using keep[of k] hs by (simp_all add: hodl1_def strat1_def)
    have atSk: "hodl' ! Suc k = Some (h * (p1 / p0))"
      "strat' ! Suc k = Some (s * (w * (p1 / p0) + (1 - w) * 1))"
      using keep[of "Suc k"] kn step.prems(3,4) by (simp_all add: hodl1_def strat1_def)
    show ?thesis
    proof (intro conjI allI impI)
      show "length hodl' = n" "length strat' = n" using IH by simp_all
    next
      fix j assume "j \<le> k"
      then show "hodl' ! j = hodl ! j" "strat' ! j = strat ! j"
        using keep[of j] by (simp_all add: hodl1_def strat1_def)
    next
      fix i assume i: "k \<le> i \<and> i < m"
        and ok: "\<forall>j. k \<le> j \<and> j \<le> i \<longrightarrow> \<not> break_at ps ws j"
      show "\<exists>p0 p1 w h s.
                  ps ! i = Finite p0 \<and> 0 < p0 \<and> ps ! Suc i = Finite p1 \<and> ws ! i = Some w
                \<and> hodl' ! i = Some h \<and> strat' ! i = Some s
                \<and> hodl' ! Suc i = Some (h * (p1 / p0))
                \<and> strat' ! Suc i = Some (s * (w * (p1 / p0) + (1 - w) * 1))"
      proof (cases "i = k")
        case True
        then show ?thesis using day atk atSk by blast
      next
        case False
        then have "Suc k \<le> i \<and> i < m" using i by simp
        moreover have "\<forall>j. Suc k \<le> j \<and> j \<le> i \<longrightarrow> \<not> break_at ps ws j" using ok by simp
        ultimately show ?thesis using IH by blast
      qed
    next
      fix i assume i: "k \<le> i \<and> i < m"
        and brk: "\<exists>j. k \<le> j \<and> j \<le> i \<and> break_at ps ws j"
      from brk obtain j where j: "k \<le> j" "j \<le> i" "break_at ps ws j" by blast
      have "j \<noteq> k" using j(3) \<open>\<not> break_at ps ws k\<close> by auto
      then have "Suc k \<le> j" using j(1) by simp
      then have "Suc k \<le> i \<and> i < m" "\<exists>j. Suc k \<le> j \<and> j \<le> i \<and> break_at ps ws j"
        using j i by auto
      then show "hodl' ! Suc i = None" "strat' ! Suc i = None" using IH by blast+
    qed
  qed
qed

lemma equity_loop_returns:
  assumes "\<forall>i\<in>set idx. Suc i < length ps \<and> i < length ws"
  shows "\<exists>r. equity_loop ps ws idx hodl strat = Inr r"
  using assms
proof (induction idx arbitrary: hodl strat)
  case Nil
  then show ?case by simp
next
  case (Cons i idx)
  have inb: "Suc i < length ps" "i < length ws" using Cons.prems by simp_all
  show ?case
  proof (cases "break_at ps ws i")
    case True
    then show ?thesis using equity_loop_break[OF True inb] by simp
  next
    case False
    then obtain p0 p1 w where
      day: "ps ! i = Finite p0" "0 < p0" "ps ! Suc i = Finite p1" "ws ! i = Some w"
      using break_at_iff by blast
    show ?thesis
      using equity_loop_step[OF day inb, of idx hodl strat] Cons.IH Cons.prems by simp
  qed
qed


lemma py_slice_from_range:
  assumes "\<forall>j<length xs. \<forall>w. xs ! j = Some w \<longrightarrow> 0 \<le> w \<and> w \<le> (1::real)"
  shows "\<forall>i<length (py_slice_from xs k). \<forall>w. py_slice_from xs k ! i = Some w \<longrightarrow> 0 \<le> w \<and> w \<le> 1"
proof -
  have "\<forall>i<length (drop d xs). \<forall>w. drop d xs ! i = Some w \<longrightarrow> 0 \<le> w \<and> w \<le> 1" for d
  proof (intro allI impI)
    fix i w assume i: "i < length (drop d xs)" and eq: "drop d xs ! i = Some w"
    have "d + i < length xs" using i by simp
    moreover have "xs ! (d + i) = Some w" using eq i by simp
    ultimately show "0 \<le> w \<and> w \<le> 1" using assms by blast
  qed
  then show ?thesis by (simp add: py_slice_from_def)
qed

lemma run_backtest_curves:
  assumes "run_backtest ds prices ratios params start_idx = Inr res"
    and "0 \<le> start_weight params" and "start_weight params \<le> 1"
  shows "length (hodl_equity res) = length (dates res)
       \<and> length (strategy_equity res) = length (dates res)
       \<and> hodl_equity res ! 0 = Some 1 \<and> strategy_equity res ! 0 = Some 1
       \<and> (\<forall>i. Suc i < length (dates res) \<longrightarrow>
            ((\<forall>j\<le>i. \<not> break_at (py_slice_from prices start_idx) (weights res) j) \<longrightarrow>
               (\<exists>p0 p1 w h s.
                  py_slice_from prices start_idx ! i = Finite p0 \<and> 0 < p0
                \<and> py_slice_from prices start_idx ! Suc i = Finite p1
                \<and> weights res ! i = Some w
                \<and> hodl_equity res ! i = Some h \<and> strategy_equity res ! i = Some s
                \<and> hodl_equity res ! Suc i = Some (h * (p1 / p0))
                \<and> strategy_equity res ! Suc i = Some (s * (w * (p1 / p0) + (1 - w) * 1))))
          \<and> ((\<exists>j\<le>i. break_at (py_slice_from prices start_idx) (weights res) j) \<longrightarrow>
               hodl_equity res ! Suc i = None \<and> strategy_equity res ! Suc i = None))"
proof -
  from assms(1) obtain wts lt where
    cws: "compute_weight_series ratios ds params start_idx = Inr (wts, lt)"
    by (auto simp: run_backtest_def split: sum.splits)
  define ps where "ps = py_slice_from prices start_idx"
  define ws where "ws = py_slice_from wts start_idx"
  define n where "n = length (py_slice_from ds start_idx)"
  define init where "init = (replicate n (None :: real option))[0 := Some 1]"
  from assms(1) cws obtain hodl strat where
    n0: "n \<noteq> 0" and
    run: "equity_loop ps ws [0..<n - 1] init init = Inr (hodl, strat)" and
    res: "dates res = py_slice_from ds start_idx" "weights res = ws"
      "hodl_equity res = hodl" "strategy_equity res = strat"
    by (auto simp: run_backtest_def Let_def ps_def ws_def n_def init_def
        split: sum.splits if_splits)
  have wr: "\<forall>i<length ws. \<forall>w. ws ! i = Some w \<longrightarrow> 0 \<le> w \<and> w \<le> 1"
  proof -
    have "\<forall>j<length wts. \<forall>w. wts ! j = Some w \<longrightarrow> 0 \<le> w \<and> w \<le> 1"
      using compute_weight_series_entries[OF cws assms(2,3)]
      by (metis linorder_not_less option.distinct(1) option.inject)
    then show ?thesis unfolding ws_def by (rule py_slice_from_range)
  qed
  have cur: "\<exists>h s. init ! 0 = Some h \<and> init ! 0 = Some s
           \<and> (h = 0 \<or> s = 0 \<longrightarrow> (\<forall>p. ps ! 0 = Finite p \<longrightarrow> p \<le> 0))"
    using n0 by (simp add: init_def)
  have later: "\<forall>j. 0 < j \<and> j < n \<longrightarrow> init ! j = None \<and> init ! j = None"
    by (simp add: init_def)
  have len: "length init = n" by (simp add: init_def)
  have mn: "n - 1 < n" using n0 by simp
  have inv: "length hodl = n \<and> length strat = n
       \<and> (\<forall>j\<le>0. hodl ! j = init ! j \<and> strat ! j = init ! j)
       \<and> (\<forall>i. 0 \<le> i \<and> i < n - 1 \<longrightarrow>
            ((\<forall>j. 0 \<le> j \<and> j \<le> i \<longrightarrow> \<not> break_at ps ws j) \<longrightarrow>
               (\<exists>p0 p1 w h s.
                  ps ! i = Finite p0 \<and> 0 < p0 \<and> ps ! Suc i = Finite p1 \<and> ws ! i = Some w
                \<and> hodl ! i = Some h \<and> strat ! i = Some s
                \<and> hodl ! Suc i = Some (h * (p1 / p0))
                \<and> strat ! Suc i = Some (s * (w * (p1 / p0) + (1 - w) * 1))))
          \<and> ((\<exists>j. 0 \<le> j \<and> j \<le> i \<and> break_at ps ws j) \<longrightarrow>
               hodl ! Suc i = None \<and> strat ! Suc i = None))"
    by (rule equity_loop_inv[OF _ mn run len len wr cur later]) simp
  have first: "hodl ! 0 = Some 1" "strat ! 0 = Some 1"
    using inv n0 by (simp_all add: init_def)
  have lens: "length hodl = length (dates res)" "length strat = length (dates res)"
    using inv by (simp_all add: res n_def)
  have day: "((\<forall>j\<le>i. \<not> break_at ps ws j) \<longrightarrow>
               (\<exists>p0 p1 w h s.
                  ps ! i = Finite p0 \<and> 0 < p0 \<and> ps ! Suc i = Finite p1 \<and> ws ! i = Some w
                \<and> hodl ! i = Some h \<and> strat ! i = Some s
                \<and> hodl ! Suc i = Some (h * (p1 / p0))
                \<and> strat ! Suc i = Some (s * (w * (p1 / p0) + (1 - w) * 1))))
          \<and> ((\<exists>j\<le>i. break_at ps ws j) \<longrightarrow>
               hodl ! Suc i = None \<and> strat ! Suc i = None)"
    if "Suc i < length (dates res)" for i
  proof -
    have "0 \<le> i \<and> i < n - 1" using that by (simp add: res n_def less_diff_conv)
    with inv have "((\<forall>j. 0 \<le> j \<and> j \<le> i \<longrightarrow> \<not> break_at ps ws j) \<longrightarrow>
               (\<exists>p0 p1 w h s.
                  ps ! i = Finite p0 \<and> 0 < p0 \<and> ps ! Suc i = Finite p1 \<and> ws ! i = Some w
                \<and> hodl ! i = Some h \<and> strat ! i = Some s
                \<and> hodl ! Suc i = Some (h * (p1 / p0))
                \<and> strat ! Suc i = Some (s * (w * (p1 / p0) + (1 - w) * 1))))
          \<and> ((\<exists>j. 0 \<le> j \<and> j \<le> i \<and> break_at ps ws j) \<longrightarrow>
               hodl ! Suc i = None \<and> strat ! Suc i = None)"
      by blast
    then show ?thesis by simp
  qed
  show ?thesis
    unfolding res ps_def[symmetric]
    using lens first day unfolding res by blast
qed

lemma run_backtest_returns:
  assumes "0 \<le> start_idx" and "start_idx < int (length ds)"
    and "length prices = length ds" and "length ratios = length ds"
    and "0 \<le> start_weight params" and "start_weight params \<le> 1"
  shows "\<exists>res. run_backtest ds prices ratios params start_idx = Inr res"
proof -
  have lo: "- int (length ratios) \<le> start_idx" using assms(1) by simp
  have eq: "length ds = length ratios" using assms(4) by simp
  obtain wts lt where
    cws: "compute_weight_series ratios ds params start_idx = Inr (wts, lt)"
    using compute_weight_series_returns[OF lo eq, of params] by blast
  have lw: "length wts = length ds"
    using compute_weight_series_entries[OF cws assms(5,6)] assms(4) by simp
  define n where "n = length (py_slice_from ds start_idx)"
  have n: "n = length ds - nat start_idx" "n \<noteq> 0"
    using assms(1,2) by (simp_all add: n_def py_slice_from_def)
  have lens: "length (py_slice_from prices start_idx) = n"
    "length (py_slice_from wts start_idx) = n"
    using assms(1,3) lw by (simp_all add: n py_slice_from_def)
  have "\<forall>i\<in>set [0..<n - 1]. Suc i < length (py_slice_from prices start_idx)
          \<and> i < length (py_slice_from wts start_idx)"
    using n(2) by (auto simp: lens)
  from equity_loop_returns[OF this]
  obtain r where "equity_loop (py_slice_from prices start_idx) (py_slice_from wts start_idx)
      [0..<n - 1] ((replicate n None)[0 := Some 1]) ((replicate n None)[0 := Some 1]) = Inr r"
    by blast
  moreover have "py_slice_from ds start_idx \<noteq> []" using n(2) by (auto simp: n_def)
  ultimately show ?thesis
    using cws by (cases r) (simp add: run_backtest_def Let_def n_def[symmetric])
qed


text \<open>The scenario of the specification, evaluated.\<close>

lemma run_backtest_scenario:
  "run_backtest [''2018-01-01'', ''2018-01-02'', ''2018-01-03'']
      [Finite 100, Finite 200, Finite 100] [Finite 10, Finite 10, Finite 10] default_params 0
   = Inr \<lparr>dates = [''2018-01-01'', ''2018-01-02'', ''2018-01-03''],
          weights = [Some 1, Some 1, Some 1],
          strategy_equity = [Some 1, Some 2, Some 1],
          hodl_equity = [Some 1, Some 2, Some 1],
          strategy_return = 0, hodl_return = 0,
          strategy_max_drawdown = - 1 / 2, hodl_max_drawdown = - 1 / 2,
          last_trade = None\<rparr>"
proof -
  have cws: "compute_weight_series [Finite 10, Finite 10, Finite 10]
      [''2018-01-01'', ''2018-01-02'', ''2018-01-03''] default_params 0
    = Inr ([Some 1, Some 1, Some 1], None)"
    by (simp add: compute_weight_series_def py_range_def py_index_def py_store_def
        py_position_def step_weight_def target_weight_def default_params_def Let_def upto.simps)
  show ?thesis
    by (simp add: run_backtest_def cws py_slice_from_def Let_def upt_rec or_one_def
        valid_values_def max_drawdown_def)
qed

text \<open>
  C8. Backtest compounding, for an initial allocation in \<open>[0, 1]\<close>. Both equity curves
  of a result start at 1. For each consecutive pair of days \<open>i\<close>, \<open>i + 1\<close> of the
  slice, as long as no day up to \<open>i\<close> met the \<open>break\<close> condition, the hold curve at
  \<open>i + 1\<close> is its value at \<open>i\<close> times \<open>asset_return = price[i+1] / price[i]\<close> and
  the strategy curve is its value at \<open>i\<close> times \<open>w * asset_return + (1 - w) * 1\<close>
  for the allocation \<open>w\<close> held on day \<open>i\<close>; from the first day that meets the
  \<open>break\<close> condition on, both curves are left unset. A result is returned when the
  three input lists have one length and the start index lies inside them. For prices
  \<open>[100, 200, 100]\<close> under a full allocation both curves are \<open>[1, 2, 1]\<close>, the
  return is 0 and the maximum drawdown is \<open>-1/2\<close>.
\<close>

theorem backtest_compounding:
  assumes "0 \<le> start_weight params" and "start_weight params \<le> 1"
  shows "(\<forall>res. run_backtest ds prices ratios params start_idx = Inr res \<longrightarrow>
            length (hodl_equity res) = length (dates res)
          \<and> length (strategy_equity res) = length (dates res)
          \<and> hodl_equity res ! 0 = Some 1 \<and> strategy_equity res ! 0 = Some 1
          \<and> (\<forall>i. Suc i < length (dates res) \<longrightarrow>
               ((\<forall>j\<le>i. \<not> break_at (py_slice_from prices start_idx) (weights res) j) \<longrightarrow>
                  (\<exists>p0 p1 w h s.
                     py_slice_from prices start_idx ! i = Finite p0 \<and> 0 < p0
                   \<and> py_slice_from prices start_idx ! Suc i = Finite p1
                   \<and> weights res ! i = Some w
                   \<and> hodl_equity res ! i = Some h \<and> strategy_equity res ! i = Some s
                   \<and> hodl_equity res ! Suc i = Some (h * (p1 / p0))
                   \<and> strategy_equity res ! Suc i = Some (s * (w * (p1 / p0) + (1 - w) * 1))))
             \<and> ((\<exists>j\<le>i. break_at (py_slice_from prices start_idx) (weights res) j) \<longrightarrow>
                  hodl_equity res ! Suc i = None \<and> strategy_equity res ! Suc i = None)))
       \<and> (0 \<le> start_idx \<and> start_idx < int (length ds)
            \<and> length prices = length ds \<and> length ratios = length ds \<longrightarrow>
            (\<exists>res. run_backtest ds prices ratios params start_idx = Inr res))
       \<and> run_backtest [''2018-01-01'', ''2018-01-02'', ''2018-01-03'']
            [Finite 100, Finite 200, Finite 100] [Finite 10, Finite 10, Finite 10]
            default_params 0
          = Inr \<lparr>dates = [''2018-01-01'', ''2018-01-02'', ''2018-01-03''],
                 weights = [Some 1, Some 1, Some 1],
                 strategy_equity = [Some 1, Some 2, Some 1],
                 hodl_equity = [Some 1, Some 2, Some 1],
                 strategy_return = 0, hodl_return = 0,
                 strategy_max_drawdown = - 1 / 2, hodl_max_drawdown = - 1 / 2,
                 last_trade = None\<rparr>"
proof (intro conjI allI impI)
  fix res assume run: "run_backtest ds prices ratios params start_idx = Inr res"
  note c = run_backtest_curves[OF run assms]
  show "length (hodl_equity res) = length (dates res)"
    "length (strategy_equity res) = length (dates res)"
    "hodl_equity res ! 0 = Some 1" "strategy_equity res ! 0 = Some 1"
    using c by blast+
  fix i assume i: "Suc i < length (dates res)"
  {
    assume "\<forall>j\<le>i. \<not> break_at (py_slice_from prices start_idx) (weights res) j"
    then show "\<exists>p0 p1 w h s.
                     py_slice_from prices start_idx ! i = Finite p0 \<and> 0 < p0
                   \<and> py_slice_from prices start_idx ! Suc i = Finite p1
                   \<and> weights res ! i = Some w
                   \<and> hodl_equity res ! i = Some h \<and> strategy_equity res ! i = Some s
                   \<and> hodl_equity res ! Suc i = Some (h * (p1 / p0))
                   \<and> strategy_equity res ! Suc i = Some (s * (w * (p1 / p0) + (1 - w) * 1))"
      using c i by blast
  next
    assume "\<exists>j\<le>i. break_at (py_slice_from prices start_idx) (weights res) j"
    then show "hodl_equity res ! Suc i = None" "strategy_equity res ! Suc i = None"
      using c i by blast+
  }
next
  assume "0 \<le> start_idx \<and> start_idx < int (length ds)
            \<and> length prices = length ds \<and> length ratios = length ds"
  then show "\<exists>res. run_backtest ds prices ratios params start_idx = Inr res"
    using run_backtest_returns[of start_idx ds prices ratios params] assms by blast
next
  show "run_backtest [''2018-01-01'', ''2018-01-02'', ''2018-01-03'']
            [Finite 100, Finite 200, Finite 100] [Finite 10, Finite 10, Finite 10]
            default_params 0
          = Inr \<lparr>dates = [''2018-01-01'', ''2018-01-02'', ''2018-01-03''],
                 weights = [Some 1, Some 1, Some 1],
                 strategy_equity = [Some 1, Some 2, Some 1],
                 hodl_equity = [Some 1, Some 2, Some 1],
                 strategy_return = 0, hodl_return = 0,
                 strategy_max_drawdown = - 1 / 2, hodl_max_drawdown = - 1 / 2,
                 last_trade = None\<rparr>"
    by (rule run_backtest_scenario)
qed


theorem backtest_compounding_witness:
  "0 \<le> start_weight default_params \<and> start_weight default_params \<le> 1
   \<and> (0::int) < int (length [''2018-01-01'', ''2018-01-02'', ''2018-01-03''])
   \<and> length [Finite 100, Finite 200, Finite 100]
       = length [''2018-01-01'', ''2018-01-02'', ''2018-01-03'']
   \<and> run_backtest [''2018-01-01'', ''2018-01-02'', ''2018-01-03'']
        [Finite 100, Finite 200, Finite 100] [Finite 10, Finite 10, Finite 10] default_params 0
      = Inr \<lparr>dates = [''2018-01-01'', ''2018-01-02'', ''2018-01-03''],
             weights = [Some 1, Some 1, Some 1],
             strategy_equity = [Some 1, Some 2, Some 1],
             hodl_equity = [Some 1, Some 2, Some 1],
             strategy_return = 0, hodl_return = 0,
             strategy_max_drawdown = - 1 / 2, hodl_max_drawdown = - 1 / 2,
             last_trade = None\<rparr>
   \<and> \<not> break_at [Finite 100, Finite 200, Finite 100] [Some 1, Some 1, Some 1] 0
   \<and> \<not> break_at [Finite 100, Finite 200, Finite 100] [Some 1, Some 1, Some 1] 1
   \<and> [Some 1, Some 2, Some (1::real)] ! Suc 1 = Some (2 * (100 / 200))
   \<and> run_backtest [''2018-01-01'', ''2018-01-02'', ''2018-01-03'']
        [Finite 100, NaN, Finite 100] [Finite 10, Finite 10, Finite 10] default_params 0
      = Inr \<lparr>dates = [''2018-01-01'', ''2018-01-02'', ''2018-01-03''],
             weights = [Some 1, Some 1, Some 1],
             strategy_equity = [Some 1, None, None],
             hodl_equity = [Some 1, None, None],
             strategy_return = 0, hodl_return = 0,
             strategy_max_drawdown = 0, hodl_max_drawdown = 0,
             last_trade = None\<rparr>
   \<and> break_at [Finite 100, NaN, Finite 100] [Some 1, Some 1, Some 1] 0
   \<and> [Some (1::real), None, None] ! Suc 0 = None"
proof -
  have h: "0 \<le> start_weight default_params" "start_weight default_params \<le> 1"
    by (simp_all add: default_params_def)
  have cws: "compute_weight_series [Finite 10, Finite 10, Finite 10]
      [''2018-01-01'', ''2018-01-02'', ''2018-01-03''] default_params 0
    = Inr ([Some 1, Some 1, Some 1], None)"
    by (simp add: compute_weight_series_def py_range_def py_index_def py_store_def
        py_position_def step_weight_def target_weight_def default_params_def Let_def upto.simps)
  have runA: "run_backtest [''2018-01-01'', ''2018-01-02'', ''2018-01-03'']
        [Finite 100, Finite 200, Finite 100] [Finite 10, Finite 10, Finite 10] default_params 0
      = Inr \<lparr>dates = [''2018-01-01'', ''2018-01-02'', ''2018-01-03''],
             weights = [Some 1, Some 1, Some 1],
             strategy_equity = [Some 1, Some 2, Some 1],
             hodl_equity = [Some 1, Some 2, Some 1],
             strategy_return = 0, hodl_return = 0,
             strategy_max_drawdown = - 1 / 2, hodl_max_drawdown = - 1 / 2,
             last_trade = None\<rparr>"
    using backtest_compounding [OF h, of "[]" "[]" "[]" 0] by (elim conjE)
  have runB: "run_backtest [''2018-01-01'', ''2018-01-02'', ''2018-01-03'']
        [Finite 100, NaN, Finite 100] [Finite 10, Finite 10, Finite 10] default_params 0
      = Inr \<lparr>dates = [''2018-01-01'', ''2018-01-02'', ''2018-01-03''],
             weights = [Some 1, Some 1, Some 1],
             strategy_equity = [Some 1, None, None],
             hodl_equity = [Some 1, None, None],
             strategy_return = 0, hodl_return = 0,
             strategy_max_drawdown = 0, hodl_max_drawdown = 0,
             last_trade = None\<rparr>"
    by (simp add: run_backtest_def cws py_slice_from_def Let_def upt_rec or_one_def
        valid_values_def max_drawdown_def)
  have nb: "\<not> break_at [Finite 100, Finite 200, Finite 100] [Some 1, Some 1, Some 1] 0"
    "\<not> break_at [Finite 100, Finite 200, Finite 100] [Some 1, Some 1, Some 1] 1"
    "break_at [Finite 100, NaN, Finite 100] [Some 1, Some 1, Some 1] 0"
    by (simp_all add: break_at_def)
  have stepB: "[Some (1::real), None, None] ! Suc 0 = None"
    using backtest_compounding [OF h, of "[''2018-01-01'', ''2018-01-02'', ''2018-01-03'']"
        "[Finite 100, NaN, Finite 100]" "[Finite 10, Finite 10, Finite 10]" 0,
        THEN conjunct1, rule_format, OF runB] nb(3)
    by (simp add: py_slice_from_def)
  show ?thesis using h runA runB nb stepB by simp
qed

section \<open>The channel stages\<close>

subsection \<open>The ratio indicator\<close>

text \<open>
  C1, as the code has it. The ratio indicator raises nothing and gives one real number
  per observed day. On a day where the gap \<open>peak_bound - trough_bound\<close> is zero or
  negative that number is 0, the value the array of zeros held before the masked
  assignment; on the other days it is \<open>100 * (price - trough) / gap\<close> clipped to
  \<open>[0, 100]\<close>.
\<close>

theorem ratio_indicator_degenerate_gap:
  assumes "length price \<le> length peak_price_line"
    and "length price \<le> length trough_price_line"
  shows "\<exists>ratio. ratio_indicator price peak_price_line trough_price_line = Inr ratio
       \<and> length ratio = length price
       \<and> (\<forall>i<length price.
             (peak_price_line ! i - trough_price_line ! i \<le> 0 \<longrightarrow> ratio ! i = 0)
           \<and> (0 < peak_price_line ! i - trough_price_line ! i \<longrightarrow>
                ratio ! i = np_clip ((price ! i - trough_price_line ! i)
                                      / (peak_price_line ! i - trough_price_line ! i) * 100) 0 100))"
proof -
  define n where "n = length price"
  have len: "length (take n peak_price_line) = n" "length (take n trough_price_line) = n"
    using assms by (simp_all add: n_def)
  define ratio where "ratio = map (\<lambda>i. np_clip
      (if 0 < peak_price_line ! i - trough_price_line ! i
       then (price ! i - trough_price_line ! i)
              / (peak_price_line ! i - trough_price_line ! i) * 100
       else 0) 0 100) [0..<n]"
  have "ratio_indicator price peak_price_line trough_price_line = Inr ratio"
    using len by (simp add: ratio_indicator_def Let_def n_def[symmetric] ratio_def)
  moreover have "length ratio = length price" by (simp add: ratio_def n_def)
  moreover have "ratio ! i = 0" if "i < length price"
    "peak_price_line ! i - trough_price_line ! i \<le> 0" for i
    using that by (simp add: ratio_def n_def np_clip_def)
  moreover have "ratio ! i = np_clip ((price ! i - trough_price_line ! i)
                        / (peak_price_line ! i - trough_price_line ! i) * 100) 0 100"
    if "i < length price" "0 < peak_price_line ! i - trough_price_line ! i" for i
    using that by (simp add: ratio_def n_def)
  ultimately show ?thesis by blast
qed

theorem ratio_indicator_degenerate_gap_witness:
  "length [50000, 30000 :: real] \<le> length [40000, 40000, 41000 :: real]
   \<and> length [50000, 30000 :: real] \<le> length [45000, 20000, 21000 :: real]
   \<and> ratio_indicator [50000, 30000] [40000, 40000, 41000] [45000, 20000, 21000] = Inr [0, 50]
   \<and> [40000, 40000, 41000 :: real] ! 0 - [45000, 20000, 21000] ! 0 \<le> 0
   \<and> 0 < [40000, 40000, 41000 :: real] ! 1 - [45000, 20000, 21000] ! 1"
proof -
  have ev: "ratio_indicator [50000, 30000] [40000, 40000, 41000] [45000, 20000, 21000]
          = Inr [0, 50]"
    by (simp add: ratio_indicator_def Let_def np_clip_def upt_rec)
  show ?thesis
    using ratio_indicator_degenerate_gap
      [of "[50000, 30000]" "[40000, 40000, 41000]" "[45000, 20000, 21000]"] ev
    by simp
qed

text \<open>A day with the peak bound below the trough bound: the position is the number 0,
  not a value apart from 0.\<close>

theorem ratio_indicator_degenerate_gap_counterexample:
  "ratio_indicator [50000] [40000] [45000] = Inr [0]"
  by (simp add: ratio_indicator_def Let_def np_clip_def)

subsection \<open>The regression through the extrema\<close>







subsection \<open>The extension to the horizon\<close>














end
